theory Spec2Isabelle
  imports Main "HOL-Library.AList"
begin

section \<open>The configuration blacklist of the management package\<close>

text \<open>
  The development follows \<^verbatim>\<open>x-pack/libbeat/management/blacklist.go\<close> and
  \<^verbatim>\<open>x-pack/libbeat/licenser/callback_watcher.go\<close>. Go strings are byte
  sequences and are modelled as \<^typ>\<open>string\<close>; a Go map that the code only
  ranges over or assigns into is an association list (the iteration order of a Go map is
  unspecified, so every statement below holds for an arbitrary order of the list).
\<close>

subsection \<open>The configuration tree and its accessors\<close>

text \<open>
  Modelled from the spec: the type \<^verbatim>\<open>common.Config\<close> and its accessors
  are not part of the two source files. The specification describes a configuration node
  as exactly one of three shapes: a dictionary from keys to child nodes, an ordered
  sequence of child nodes, or a scalar that has a string representation. The scalar
  carries that representation.
\<close>

datatype config =
    Dict "(string \<times> config) list"
  | Array "config list"
  | Scalar string

text \<open>
  \<^verbatim>\<open>match.Matcher\<close> is declared outside the source files and is used
  through \<^verbatim>\<open>MatchString\<close> only: a matcher is the predicate on strings it
  decides.
\<close>

type_synonym Matcher = "string \<Rightarrow> bool"

text \<open>
  Modelled from the spec: the accessors "is this node a dictionary", "is this node an
  array", the key names of a dictionary and "count elements in array" (asked with the
  empty name) of the collaborator interface.
\<close>

fun IsDict :: "config \<Rightarrow> bool" where
  "IsDict (Dict kvs) = True"
| "IsDict c = False"

fun IsArray :: "config \<Rightarrow> bool" where
  "IsArray (Array xs) = True"
| "IsArray c = False"

fun GetFields :: "config \<Rightarrow> string list" where
  "GetFields (Dict kvs) = map fst kvs"
| "GetFields c = []"

fun CountField :: "config \<Rightarrow> string \<Rightarrow> nat" where
  "CountField (Array xs) name = (if name = [] then length xs else 0)"
| "CountField c name = 0"

text \<open>
  Modelled from the spec: "get the value at key/index". The code reads a dictionary with
  a key and index \<open>-1\<close>, and an array with the empty name and an index from
  \<open>0\<close>; every other access finds nothing.
\<close>

fun getField :: "config \<Rightarrow> string \<Rightarrow> int \<Rightarrow> config option" where
  "getField (Dict kvs) name idx = (if idx = -1 then map_of kvs name else None)"
| "getField (Array xs) name idx =
     (if name = [] \<and> 0 \<le> idx \<and> nat idx < length xs then Some (xs ! nat idx) else None)"
| "getField (Scalar s) name idx = None"

text \<open>
  Modelled from the spec: "get string value at key/index" and "get child node at
  key/index". \<^verbatim>\<open>String(name, idx)\<close> returns the string representation when
  the value is a scalar and an error (\<open>None\<close>) when the value is absent or a nested
  structure; \<^verbatim>\<open>Child(name, idx)\<close> returns the nested structure, and
  \<^verbatim>\<open>nil\<close> (\<open>None\<close>) when the value is absent or a scalar.
\<close>

definition String :: "config \<Rightarrow> string \<Rightarrow> int \<Rightarrow> string option" where
  "String c name idx =
     (case getField c name idx of
        Some (Scalar s) \<Rightarrow> Some s
      | _ \<Rightarrow> None)"

definition Child :: "config \<Rightarrow> string \<Rightarrow> int \<Rightarrow> config option" where
  "Child c name idx =
     (case getField c name idx of
        Some (Dict kvs) \<Rightarrow> Some (Dict kvs)
      | Some (Array xs) \<Rightarrow> Some (Array xs)
      | _ \<Rightarrow> None)"

subsection \<open>The traversal \<^verbatim>\<open>isBlacklistedBlock\<close>\<close>

text \<open>
  The dictionary part of the Go function either returns or leaves its \<^verbatim>\<open>switch\<close>
  (when no key name matched with zero segments) and goes on to the array part.
\<close>

datatype 'a flow = Return 'a | FallThrough

lemma size_map_of_less:
  "map_of kvs k = Some v \<Longrightarrow> size v < Suc (size_list (size_prod (\<lambda>_. 0) size) kvs)"
  by (induction kvs) (auto split: if_splits)

lemma size_member_less: "x \<in> set xs \<Longrightarrow> size x < Suc (size_list size xs)"
  by (induction xs) auto

lemma size_getField: "getField c name idx = Some d \<Longrightarrow> size d < size c"
  by (cases c) (auto split: if_splits dest: size_map_of_less simp: size_member_less)

lemma size_Child: "Child c name idx = Some d \<Longrightarrow> size d < size c"
  by (auto simp: Child_def split: option.splits config.splits dest: size_getField)

text \<open>
  The two array loops count \<^verbatim>\<open>count\<close> down from \<^verbatim>\<open>CountField("")\<close>
  to \<open>1\<close> and read index \<^verbatim>\<open>count-1\<close>: the indices are visited in the order
  \<open>rev [0..<CountField current []]\<close>, and the first iteration that returns
  \<^verbatim>\<open>true\<close> ends the loop.
\<close>

function isBlacklistedBlock :: "Matcher \<Rightarrow> string list \<Rightarrow> config \<Rightarrow> bool" where
  "isBlacklistedBlock pattern segments current =
     (case (if IsDict current then
              (case segments of
                 [] \<Rightarrow>
                   if list_ex pattern (GetFields current) then Return True else FallThrough
               | [seg] \<Rightarrow>
                   (case String current seg (-1) of
                      Some val \<Rightarrow> Return (pattern val)
                    | None \<Rightarrow>
                        (case Child current seg (-1) of
                           None \<Rightarrow> Return False
                         | Some child \<Rightarrow> Return (isBlacklistedBlock pattern [] child)))
               | seg # rest \<Rightarrow>
                   (case Child current seg (-1) of
                      None \<Rightarrow> Return False
                    | Some child \<Rightarrow> Return (isBlacklistedBlock pattern rest child)))
            else FallThrough) of
        Return r \<Rightarrow> r
      | FallThrough \<Rightarrow>
          if IsArray current then
            (case segments of
               [] \<Rightarrow>
                 list_ex (\<lambda>i.
                     (case String current [] (int i) of
                        Some val \<Rightarrow> pattern val
                      | None \<Rightarrow> False) \<or>
                     (case Child current [] (int i) of
                        None \<Rightarrow> False
                      | Some child \<Rightarrow> isBlacklistedBlock pattern segments child))
                   (rev [0..<CountField current []])
             | _ \<Rightarrow>
                 list_ex (\<lambda>i.
                     (case Child current [] (int i) of
                        None \<Rightarrow> False
                      | Some child \<Rightarrow> isBlacklistedBlock pattern segments child))
                   (rev [0..<CountField current []]))
          else False)"
  by pat_completeness auto
termination
  by (relation "measure (\<lambda>(p, s, c). size c)") (auto dest: size_Child)

declare isBlacklistedBlock.simps [simp del]

text \<open>
  The same function with an explicit bound on the depth of the call stack: every call
  spends one unit of fuel, a call without fuel gives \<open>None\<close>, and a loop stops at
  the first iteration that returns \<^verbatim>\<open>true\<close> or runs out of fuel.
\<close>

fun loop_until_true :: "('a \<Rightarrow> bool option) \<Rightarrow> 'a list \<Rightarrow> bool option" where
  "loop_until_true body [] = Some False"
| "loop_until_true body (x # xs) =
     (case body x of
        None \<Rightarrow> None
      | Some True \<Rightarrow> Some True
      | Some False \<Rightarrow> loop_until_true body xs)"

fun isBlacklistedBlock_fuel :: "nat \<Rightarrow> Matcher \<Rightarrow> string list \<Rightarrow> config \<Rightarrow> bool option" where
  "isBlacklistedBlock_fuel 0 pattern segments current = None"
| "isBlacklistedBlock_fuel (Suc n) pattern segments current =
     (case (if IsDict current then
              (case segments of
                 [] \<Rightarrow>
                   if list_ex pattern (GetFields current) then Return (Some True)
                   else FallThrough
               | [seg] \<Rightarrow>
                   (case String current seg (-1) of
                      Some val \<Rightarrow> Return (Some (pattern val))
                    | None \<Rightarrow>
                        (case Child current seg (-1) of
                           None \<Rightarrow> Return (Some False)
                         | Some child \<Rightarrow> Return (isBlacklistedBlock_fuel n pattern [] child)))
               | seg # rest \<Rightarrow>
                   (case Child current seg (-1) of
                      None \<Rightarrow> Return (Some False)
                    | Some child \<Rightarrow> Return (isBlacklistedBlock_fuel n pattern rest child)))
            else FallThrough) of
        Return r \<Rightarrow> r
      | FallThrough \<Rightarrow>
          if IsArray current then
            (case segments of
               [] \<Rightarrow>
                 loop_until_true (\<lambda>i.
                     if (case String current [] (int i) of
                           Some val \<Rightarrow> pattern val
                         | None \<Rightarrow> False)
                     then Some True
                     else (case Child current [] (int i) of
                             None \<Rightarrow> Some False
                           | Some child \<Rightarrow> isBlacklistedBlock_fuel n pattern segments child))
                   (rev [0..<CountField current []])
             | _ \<Rightarrow>
                 loop_until_true (\<lambda>i.
                     (case Child current [] (int i) of
                        None \<Rightarrow> Some False
                      | Some child \<Rightarrow> isBlacklistedBlock_fuel n pattern segments child))
                   (rev [0..<CountField current []]))
          else Some False)"

text \<open>The nesting depth of a tree: a scalar has depth \<open>0\<close>.\<close>

fun depth :: "config \<Rightarrow> nat" where
  "depth (Scalar s) = 0"
| "depth (Array xs) = Suc (fold max (map depth xs) 0)"
| "depth (Dict kvs) = Suc (fold max (map (\<lambda>kv. depth (snd kv)) kvs) 0)"

subsection \<open>The string functions of Go's \<^verbatim>\<open>strings\<close> package that the code calls\<close>

text \<open>
  \<^verbatim>\<open>strings.HasPrefix(s, prefix)\<close>, \<^verbatim>\<open>strings.Contains(s, substr)\<close>
  and \<^verbatim>\<open>strings.Split(s, sep)\<close> for a separator of one byte (the code only
  splits on \<^verbatim>\<open>"."\<close>). \<^verbatim>\<open>Split\<close> of the empty string is the list
  holding one empty string, and \<open>n\<close> separators give \<open>n + 1\<close> pieces.
\<close>

definition HasPrefix :: "string \<Rightarrow> string \<Rightarrow> bool" where
  "HasPrefix s prefix = (length prefix \<le> length s \<and> take (length prefix) s = prefix)"

fun Contains :: "string \<Rightarrow> string \<Rightarrow> bool" where
  "Contains [] substr = (substr = [])"
| "Contains (c # cs) substr = (HasPrefix (c # cs) substr \<or> Contains cs substr)"

fun Split :: "string \<Rightarrow> char \<Rightarrow> string list" where
  "Split [] sep = [[]]"
| "Split (c # cs) sep =
     (if c = sep then [] # Split cs sep
      else (case Split cs sep of
              [] \<Rightarrow> [[c]]
            | w # ws \<Rightarrow> (c # w) # ws))"

subsection \<open>The registry and the settings\<close>

record ConfigBlacklist =
  patterns :: "(string \<times> Matcher) list"

record ConfigBlacklistSettings =
  Patterns :: "(string \<times> string) list"

text \<open>
  \<^verbatim>\<open>Unpack\<close> receives a value of the empty interface, which carries its
  dynamic type. The type assertion \<^verbatim>\<open>from.(map[string]interface{})\<close> succeeds
  only when the dynamic type is exactly \<^verbatim>\<open>map[string]interface{}\<close>: it fails on
  a \<^verbatim>\<open>common.MapStr\<close> (a named type over the same map), on a
  \<^verbatim>\<open>map[string]string\<close> and on every value that is not a map.
  \<^verbatim>\<open>MapStr.Flatten\<close> and \<^verbatim>\<open>fmt.Sprintf("%s", v)\<close> are not part of
  the source files: they are parameters of the model.
\<close>

datatype 'v interface =
    MapStringInterface "(string \<times> 'v) list"
  | MapStr "(string \<times> 'v) list"
  | MapStringString "(string \<times> string) list"
  | OtherValue 'v

definition Unpack ::
  "((string \<times> 'v) list \<Rightarrow> (string \<times> 'v) list) \<Rightarrow> ('v \<Rightarrow> string) \<Rightarrow>
   ConfigBlacklistSettings \<Rightarrow> 'v interface \<Rightarrow> ConfigBlacklistSettings \<times> string option" where
  "Unpack Flatten Sprintf f from =
     (case from of
        MapStringInterface m \<Rightarrow>
          (f\<lparr>Patterns :=
               fold (\<lambda>(k, v) acc. AList.update k (Sprintf v) acc) (Flatten m) []\<rparr>,
           None)
      | _ \<Rightarrow> (f, Some ''wrong type, map is expected''))"

text \<open>
  The inputs that the specification's wording "a string-keyed map" covers: every map whose
  keys are strings, whatever its Go type. It is used to compare that wording with
  \<open>Unpack\<close>.
\<close>

fun string_keyed_map :: "'v interface \<Rightarrow> bool" where
  "string_keyed_map (MapStringInterface m) = True"
| "string_keyed_map (MapStr m) = True"
| "string_keyed_map (MapStringString m) = True"
| "string_keyed_map (OtherValue x) = False"

text \<open>
  \<^verbatim>\<open>errors.Wrap(err, msg)\<close> keeps the cause and adds the message.
  \<^verbatim>\<open>match.Compile\<close> is not part of the source files: it is a parameter that
  gives a matcher or an error.
\<close>

datatype 'e wrapped = Wrap 'e string

fun NewConfigBlacklist_range ::
  "(string \<Rightarrow> 'e + Matcher) \<Rightarrow> (string \<times> string) list \<Rightarrow> ConfigBlacklist \<Rightarrow>
   'e wrapped + ConfigBlacklist" where
  "NewConfigBlacklist_range Compile [] list = Inr list"
| "NewConfigBlacklist_range Compile ((field, pattern) # rest) list =
     (case Compile pattern of
        Inl err \<Rightarrow>
          Inl (Wrap err (''Given expression is not a valid regexp: '' @ pattern))
      | Inr exp \<Rightarrow>
          NewConfigBlacklist_range Compile rest
            (list\<lparr>patterns := AList.update field exp (patterns list)\<rparr>))"

definition NewConfigBlacklist ::
  "(string \<Rightarrow> 'e + Matcher) \<Rightarrow> ConfigBlacklistSettings \<Rightarrow> 'e wrapped + ConfigBlacklist" where
  "NewConfigBlacklist Compile cfg =
     NewConfigBlacklist_range Compile (Patterns cfg) \<lparr>patterns = []\<rparr>"

subsection \<open>Detection\<close>

text \<open>
  Modelled from the spec: \<^verbatim>\<open>api.ConfigBlock\<close>, \<^verbatim>\<open>api.ConfigBlocks\<close>,
  \<^verbatim>\<open>Error\<close> and \<^verbatim>\<open>ConfigError\<close> are declared outside the source files.
  Reading a block into the tree form either gives its root node or fails; a group pairs a
  block type with the blocks of that type; a detection carries a classification and a
  message.
\<close>

datatype ConfigBlock = WellFormed config | Malformed

fun ConfigWithMeta :: "ConfigBlock \<Rightarrow> config option" where
  "ConfigWithMeta (WellFormed cfg) = Some cfg"
| "ConfigWithMeta Malformed = None"

record ConfigBlocksWithType =
  Type :: string
  Blocks :: "ConfigBlock list"

datatype ErrorType = ConfigError | OtherError

datatype Error = Error ErrorType string

text \<open>The body of the loop over \<^verbatim>\<open>c.patterns\<close>, in the order of the list.\<close>

fun isBlacklisted_range :: "string \<Rightarrow> config \<Rightarrow> (string \<times> Matcher) list \<Rightarrow> bool" where
  "isBlacklisted_range blockType cfg [] = False"
| "isBlacklisted_range blockType cfg ((field, pattern) # rest) =
     (let prefix = (if Contains field ''.'' then blockType @ ''.'' else blockType) in
      if HasPrefix field prefix then
        (let field' = drop (length prefix) field;
             segments = (if length field' > 0 then Split field' (CHR ''.'') else []) in
         if isBlacklistedBlock pattern segments cfg then True
         else isBlacklisted_range blockType cfg rest)
      else isBlacklisted_range blockType cfg rest)"

definition isBlacklisted :: "ConfigBlacklist \<Rightarrow> string \<Rightarrow> ConfigBlock \<Rightarrow> bool" where
  "isBlacklisted c blockType block =
     (case ConfigWithMeta block of
        None \<Rightarrow> False
      | Some cfg \<Rightarrow> isBlacklisted_range blockType cfg (patterns c))"

text \<open>
  \<^verbatim>\<open>Detect\<close>: the inner loop over the blocks of one group and the outer loop
  over the groups, both appending to \<^verbatim>\<open>errs\<close>. The message is
  \<^verbatim>\<open>fmt.Errorf("Config for '%s' is blacklisted", configs.Type)\<close>; the byte
  \<open>0x27\<close> is the single quote.
\<close>

fun Detect_blocks :: "ConfigBlacklist \<Rightarrow> string \<Rightarrow> ConfigBlock list \<Rightarrow> Error list \<Rightarrow> Error list" where
  "Detect_blocks c t [] errs = errs"
| "Detect_blocks c t (block # rest) errs =
     Detect_blocks c t rest
       (if isBlacklisted c t block
        then errs @ [Error ConfigError
                       (''Config for '' @ [CHR 0x27] @ t @ [CHR 0x27] @ '' is blacklisted'')]
        else errs)"

fun Detect_groups :: "ConfigBlacklist \<Rightarrow> ConfigBlocksWithType list \<Rightarrow> Error list \<Rightarrow> Error list" where
  "Detect_groups c [] errs = errs"
| "Detect_groups c (configs # rest) errs =
     Detect_groups c rest (Detect_blocks c (Type configs) (Blocks configs) errs)"

definition Detect :: "ConfigBlacklist \<Rightarrow> ConfigBlocksWithType list \<Rightarrow> Error list" where
  "Detect c configBlocks = Detect_groups c configBlocks []"

text \<open>
  The loop of \<^verbatim>\<open>isBlacklisted\<close> once more, recording which entries it tests:
  the second component lists, in order, the paths of the entries on which
  \<^verbatim>\<open>isBlacklistedBlock\<close> was called. A call that returns \<^verbatim>\<open>true\<close>
  ends the loop.
\<close>

fun isBlacklisted_tested ::
  "string \<Rightarrow> config \<Rightarrow> (string \<times> Matcher) list \<Rightarrow> bool \<times> string list" where
  "isBlacklisted_tested blockType cfg [] = (False, [])"
| "isBlacklisted_tested blockType cfg ((field, pattern) # rest) =
     (let prefix = (if Contains field ''.'' then blockType @ ''.'' else blockType) in
      if HasPrefix field prefix then
        (let field' = drop (length prefix) field;
             segments = (if length field' > 0 then Split field' (CHR ''.'') else []) in
         if isBlacklistedBlock pattern segments cfg then (True, [field])
         else (case isBlacklisted_tested blockType cfg rest of
                 (r, tested) \<Rightarrow> (r, field # tested)))
      else isBlacklisted_tested blockType cfg rest)"

subsection \<open>The operations of Go that can fail at run time\<close>

text \<open>
  Indexing a slice and slicing it panic in Go when the index is out of range. The
  functions of this subsection are \<^verbatim>\<open>isBlacklistedBlock\<close>,
  \<^verbatim>\<open>isBlacklisted\<close> and \<^verbatim>\<open>Detect\<close> again, with
  \<^verbatim>\<open>segments[0]\<close>, \<^verbatim>\<open>segments[1:]\<close> and
  \<^verbatim>\<open>field[len(prefix):]\<close> as operations that can fail, and with the
  \<^verbatim>\<open>switch len(segments)\<close> as the code writes it. A failure ends the function
  that meets it and every caller, as a panic does. The accessors of the tree are the
  ones modelled from the spec, where an absent key or index is a non-match and not a
  failure.
\<close>

datatype runtime_error = IndexOutOfRange | SliceBoundsOutOfRange

definition index :: "'a list \<Rightarrow> nat \<Rightarrow> runtime_error + 'a" where
  "index xs i = (if i < length xs then Inr (xs ! i) else Inl IndexOutOfRange)"

definition slice_from :: "'a list \<Rightarrow> nat \<Rightarrow> runtime_error + 'a list" where
  "slice_from xs n = (if n \<le> length xs then Inr (drop n xs) else Inl SliceBoundsOutOfRange)"

fun loop_checked :: "('a \<Rightarrow> runtime_error + bool) \<Rightarrow> 'a list \<Rightarrow> runtime_error + bool" where
  "loop_checked body [] = Inr False"
| "loop_checked body (x # xs) =
     (case body x of
        Inl e \<Rightarrow> Inl e
      | Inr True \<Rightarrow> Inr True
      | Inr False \<Rightarrow> loop_checked body xs)"

function isBlacklistedBlock_checked ::
  "Matcher \<Rightarrow> string list \<Rightarrow> config \<Rightarrow> runtime_error + bool" where
  "isBlacklistedBlock_checked pattern segments current =
     (case (if IsDict current then
              (if length segments = 0 then
                 (if list_ex pattern (GetFields current) then Return (Inr True)
                  else FallThrough)
               else if length segments = 1 then
                 (case index segments 0 of
                    Inl e \<Rightarrow> Return (Inl e)
                  | Inr seg \<Rightarrow>
                      (case String current seg (-1) of
                         Some val \<Rightarrow> Return (Inr (pattern val))
                       | None \<Rightarrow>
                           (case Child current seg (-1) of
                              None \<Rightarrow> Return (Inr False)
                            | Some child \<Rightarrow>
                                (case slice_from segments 1 of
                                   Inl e \<Rightarrow> Return (Inl e)
                                 | Inr rest \<Rightarrow>
                                     Return (isBlacklistedBlock_checked pattern rest child)))))
               else
                 (case index segments 0 of
                    Inl e \<Rightarrow> Return (Inl e)
                  | Inr seg \<Rightarrow>
                      (case Child current seg (-1) of
                         None \<Rightarrow> Return (Inr False)
                       | Some child \<Rightarrow>
                           (case slice_from segments 1 of
                              Inl e \<Rightarrow> Return (Inl e)
                            | Inr rest \<Rightarrow>
                                Return (isBlacklistedBlock_checked pattern rest child)))))
            else FallThrough) of
        Return r \<Rightarrow> r
      | FallThrough \<Rightarrow>
          if IsArray current then
            (if length segments = 0 then
               loop_checked (\<lambda>i.
                   if (case String current [] (int i) of
                         Some val \<Rightarrow> pattern val
                       | None \<Rightarrow> False)
                   then Inr True
                   else (case Child current [] (int i) of
                           None \<Rightarrow> Inr False
                         | Some child \<Rightarrow> isBlacklistedBlock_checked pattern segments child))
                 (rev [0..<CountField current []])
             else
               loop_checked (\<lambda>i.
                   (case Child current [] (int i) of
                      None \<Rightarrow> Inr False
                    | Some child \<Rightarrow> isBlacklistedBlock_checked pattern segments child))
                 (rev [0..<CountField current []]))
          else Inr False)"
  by pat_completeness auto
termination
  by (relation "measure (\<lambda>(p, s, c). size c)") (auto dest: size_Child)

declare isBlacklistedBlock_checked.simps [simp del]

fun isBlacklisted_range_checked ::
  "string \<Rightarrow> config \<Rightarrow> (string \<times> Matcher) list \<Rightarrow> runtime_error + bool" where
  "isBlacklisted_range_checked blockType cfg [] = Inr False"
| "isBlacklisted_range_checked blockType cfg ((field, pattern) # rest) =
     (let prefix = (if Contains field ''.'' then blockType @ ''.'' else blockType) in
      if HasPrefix field prefix then
        (case slice_from field (length prefix) of
           Inl e \<Rightarrow> Inl e
         | Inr field' \<Rightarrow>
             (let segments = (if length field' > 0 then Split field' (CHR ''.'') else []) in
              case isBlacklistedBlock_checked pattern segments cfg of
                Inl e \<Rightarrow> Inl e
              | Inr True \<Rightarrow> Inr True
              | Inr False \<Rightarrow> isBlacklisted_range_checked blockType cfg rest))
      else isBlacklisted_range_checked blockType cfg rest)"

definition isBlacklisted_checked ::
  "ConfigBlacklist \<Rightarrow> string \<Rightarrow> ConfigBlock \<Rightarrow> runtime_error + bool" where
  "isBlacklisted_checked c blockType block =
     (case ConfigWithMeta block of
        None \<Rightarrow> Inr False
      | Some cfg \<Rightarrow> isBlacklisted_range_checked blockType cfg (patterns c))"

fun Detect_blocks_checked ::
  "ConfigBlacklist \<Rightarrow> string \<Rightarrow> ConfigBlock list \<Rightarrow> Error list \<Rightarrow> runtime_error + Error list" where
  "Detect_blocks_checked c t [] errs = Inr errs"
| "Detect_blocks_checked c t (block # rest) errs =
     (case isBlacklisted_checked c t block of
        Inl e \<Rightarrow> Inl e
      | Inr b \<Rightarrow>
          Detect_blocks_checked c t rest
            (if b
             then errs @ [Error ConfigError
                            (''Config for '' @ [CHR 0x27] @ t @ [CHR 0x27] @ '' is blacklisted'')]
             else errs))"

fun Detect_groups_checked ::
  "ConfigBlacklist \<Rightarrow> ConfigBlocksWithType list \<Rightarrow> Error list \<Rightarrow> runtime_error + Error list" where
  "Detect_groups_checked c [] errs = Inr errs"
| "Detect_groups_checked c (configs # rest) errs =
     (case Detect_blocks_checked c (Type configs) (Blocks configs) errs of
        Inl e \<Rightarrow> Inl e
      | Inr errs' \<Rightarrow> Detect_groups_checked c rest errs')"

definition Detect_checked ::
  "ConfigBlacklist \<Rightarrow> ConfigBlocksWithType list \<Rightarrow> runtime_error + Error list" where
  "Detect_checked c configBlocks = Detect_groups_checked c configBlocks []"

subsection \<open>The specification's prefix-owner relation\<close>

text \<open>
  The relation between a block type and a dotted path as the specification words it
  ("the path must equal the block-type or begin with the block-type followed by a dot").
  It is used to compare the specification with \<open>isBlacklisted\<close>, which computes its
  own prefix.
\<close>

definition prefix_owner :: "string \<Rightarrow> string \<Rightarrow> bool" where
  "prefix_owner blockType path = (path = blockType \<or> HasPrefix path (blockType @ ''.''))"

subsection \<open>The callback watcher of the licenser\<close>

text \<open>
  A callback is an optional function (\<open>None\<close> is \<^verbatim>\<open>nil\<close>) that changes the
  state of the world \<open>'s\<close>. Calling a \<^verbatim>\<open>nil\<close> function panics in Go.
\<close>

record ('l, 's) CallbackWatcher =
  New :: "('l \<Rightarrow> 's \<Rightarrow> 's) option"
  Stopped :: "('s \<Rightarrow> 's) option"

datatype panic = NilFunctionCall

fun call1 :: "('l \<Rightarrow> 's \<Rightarrow> 's) option \<Rightarrow> 'l \<Rightarrow> 's \<Rightarrow> panic + 's" where
  "call1 None license s = Inl NilFunctionCall"
| "call1 (Some f) license s = Inr (f license s)"

fun call0 :: "('s \<Rightarrow> 's) option \<Rightarrow> 's \<Rightarrow> panic + 's" where
  "call0 None s = Inl NilFunctionCall"
| "call0 (Some f) s = Inr (f s)"

definition OnNewLicense :: "('l, 's) CallbackWatcher \<Rightarrow> 'l \<Rightarrow> 's \<Rightarrow> panic + 's" where
  "OnNewLicense cb license s =
     (if New cb = None then Inr s else call1 (New cb) license s)"

definition OnManagerStopped :: "('l, 's) CallbackWatcher \<Rightarrow> 's \<Rightarrow> panic + 's" where
  "OnManagerStopped cb s =
     (if Stopped cb = None then Inr s else call0 (Stopped cb) s)"

section \<open>Properties\<close>

subsection \<open>Facts about the accessors and the strings\<close>

lemma list_ex_upt: "list_ex P [0..<n] = (\<exists>i<n. P i)"
  by (auto simp: list_ex_iff)

lemma ex_nth_iff: "(\<exists>i<length xs. Q (xs ! i)) = (\<exists>c\<in>set xs. Q c)"
  by (metis in_set_conv_nth)

lemma String_Dict:
  "String (Dict kvs) k (-1) = (case map_of kvs k of Some (Scalar s) \<Rightarrow> Some s | _ \<Rightarrow> None)"
  by (simp add: String_def)

lemma Child_Dict:
  "Child (Dict kvs) k (-1) =
     (case map_of kvs k of Some (Scalar s) \<Rightarrow> None | Some c \<Rightarrow> Some c | None \<Rightarrow> None)"
  by (simp add: Child_def split: option.splits config.splits)

lemma String_Array:
  "i < length xs \<Longrightarrow>
   String (Array xs) [] (int i) = (case xs ! i of Scalar s \<Rightarrow> Some s | _ \<Rightarrow> None)"
  by (simp add: String_def)

lemma Child_Array:
  "i < length xs \<Longrightarrow>
   Child (Array xs) [] (int i) = (case xs ! i of Scalar s \<Rightarrow> None | c \<Rightarrow> Some c)"
  by (simp add: Child_def split: option.splits config.splits)

lemma HasPrefix_single: "HasPrefix (c # cs) [d] = (c = d)"
  by (simp add: HasPrefix_def)

lemma Contains_single: "Contains s [d] = (d \<in> set s)"
  by (induction s) (auto simp: HasPrefix_single)

lemma HasPrefix_iff: "HasPrefix s p = (\<exists>r. s = p @ r)"
  unfolding HasPrefix_def
proof
  assume "length p \<le> length s \<and> take (length p) s = p"
  then have "s = p @ drop (length p) s" by (metis append_take_drop_id)
  then show "\<exists>r. s = p @ r" ..
next
  assume "\<exists>r. s = p @ r"
  then show "length p \<le> length s \<and> take (length p) s = p" by auto
qed

lemma HasPrefix_append: "HasPrefix s (p @ q) \<Longrightarrow> HasPrefix s p"
  by (auto simp: HasPrefix_iff)

lemma HasPrefix_self: "HasPrefix s s"
  by (simp add: HasPrefix_def)

subsection \<open>The traversal, shape by shape\<close>

lemma isBlacklistedBlock_Scalar: "isBlacklistedBlock p segs (Scalar s) = False"
  by (simp add: isBlacklistedBlock.simps)

lemma isBlacklistedBlock_Dict_Nil: "isBlacklistedBlock p [] (Dict kvs) = list_ex p (map fst kvs)"
  by (simp add: isBlacklistedBlock.simps)

lemma isBlacklistedBlock_Dict_single:
  "isBlacklistedBlock p [seg] (Dict kvs) =
     (case map_of kvs seg of
        None \<Rightarrow> False
      | Some (Scalar v) \<Rightarrow> p v
      | Some child \<Rightarrow> isBlacklistedBlock p [] child)"
  by (subst isBlacklistedBlock.simps)
    (simp add: String_Dict Child_Dict split: option.splits config.splits)

lemma isBlacklistedBlock_Dict_more:
  "isBlacklistedBlock p (seg # s2 # rest) (Dict kvs) =
     (case map_of kvs seg of
        None \<Rightarrow> False
      | Some child \<Rightarrow> isBlacklistedBlock p (s2 # rest) child)"
  by (subst isBlacklistedBlock.simps)
    (simp add: Child_Dict isBlacklistedBlock_Scalar split: option.splits config.splits)

lemma isBlacklistedBlock_Array_segments:
  assumes "segs \<noteq> []"
  shows "isBlacklistedBlock p segs (Array xs) = (\<exists>c\<in>set xs. isBlacklistedBlock p segs c)"
proof -
  have "isBlacklistedBlock p segs (Array xs) =
      (\<exists>i<length xs. case Child (Array xs) [] (int i) of None \<Rightarrow> False
         | Some child \<Rightarrow> isBlacklistedBlock p segs child)"
    using assms by (subst isBlacklistedBlock.simps) (simp add: list_ex_upt split: list.splits)
  also have "\<dots> = (\<exists>i<length xs. isBlacklistedBlock p segs (xs ! i))"
  proof -
    have "(case Child (Array xs) [] (int i) of None \<Rightarrow> False
            | Some child \<Rightarrow> isBlacklistedBlock p segs child) = isBlacklistedBlock p segs (xs ! i)"
      if "i < length xs" for i
      using that by (simp add: Child_Array isBlacklistedBlock_Scalar split: config.splits)
    then show ?thesis by (simp cong: conj_cong)
  qed
  also have "\<dots> = (\<exists>c\<in>set xs. isBlacklistedBlock p segs c)"
    by (rule ex_nth_iff)
  finally show ?thesis .
qed

lemma isBlacklistedBlock_Array_Nil:
  "isBlacklistedBlock p [] (Array xs) =
     (\<exists>c\<in>set xs. case c of Scalar v \<Rightarrow> p v | _ \<Rightarrow> isBlacklistedBlock p [] c)"
proof -
  have "isBlacklistedBlock p [] (Array xs) =
      (\<exists>i<length xs.
         (case String (Array xs) [] (int i) of Some val \<Rightarrow> p val | None \<Rightarrow> False) \<or>
         (case Child (Array xs) [] (int i) of None \<Rightarrow> False
          | Some child \<Rightarrow> isBlacklistedBlock p [] child))"
    by (subst isBlacklistedBlock.simps) (simp add: list_ex_upt)
  also have "\<dots> =
      (\<exists>i<length xs. case xs ! i of Scalar v \<Rightarrow> p v | _ \<Rightarrow> isBlacklistedBlock p [] (xs ! i))"
  proof -
    have "((case String (Array xs) [] (int i) of Some val \<Rightarrow> p val | None \<Rightarrow> False) \<or>
           (case Child (Array xs) [] (int i) of None \<Rightarrow> False
            | Some child \<Rightarrow> isBlacklistedBlock p [] child)) =
          (case xs ! i of Scalar v \<Rightarrow> p v | _ \<Rightarrow> isBlacklistedBlock p [] (xs ! i))"
      if "i < length xs" for i
      using that by (simp add: Child_Array String_Array split: config.splits)
    then show ?thesis by (simp cong: conj_cong)
  qed
  also have "\<dots> =
      (\<exists>c\<in>set xs. case c of Scalar v \<Rightarrow> p v | _ \<Rightarrow> isBlacklistedBlock p [] c)"
    by (rule ex_nth_iff
        [where Q = "\<lambda>c. case c of Scalar v \<Rightarrow> p v | _ \<Rightarrow> isBlacklistedBlock p [] c"])
  finally show ?thesis .
qed

text \<open>
  C2. At a dictionary with exactly one remaining segment: when the value at that key has
  a string representation the result is whether the pattern matches that string;
  otherwise, when a child exists at that key, the result is that of the traversal of the
  child with the empty segment list, and without such a child there is no match.
\<close>

theorem dict_one_segment:
  "IsDict current \<Longrightarrow>
   isBlacklistedBlock pattern [seg] current =
     (case String current seg (-1) of
        Some val \<Rightarrow> pattern val
      | None \<Rightarrow>
          (case Child current seg (-1) of
             None \<Rightarrow> False
           | Some child \<Rightarrow> isBlacklistedBlock pattern [] child))"
  by (subst isBlacklistedBlock.simps) (simp split: option.splits)

theorem dict_one_segment_witness:
  "IsDict (Dict [(''secret'', Scalar ''abc''), (''b'', Dict [(''c'', Scalar ''v'')])]) \<and>
   isBlacklistedBlock (\<lambda>s. s = ''abc'') [''secret'']
     (Dict [(''secret'', Scalar ''abc''), (''b'', Dict [(''c'', Scalar ''v'')])]) \<and>
   \<not> isBlacklistedBlock (\<lambda>s. s = ''xyz'') [''secret'']
     (Dict [(''secret'', Scalar ''abc''), (''b'', Dict [(''c'', Scalar ''v'')])]) \<and>
   isBlacklistedBlock (\<lambda>s. s = ''c'') [''b'']
     (Dict [(''secret'', Scalar ''abc''), (''b'', Dict [(''c'', Scalar ''v'')])]) \<and>
   \<not> isBlacklistedBlock (\<lambda>s. s = ''c'') [''missing'']
     (Dict [(''secret'', Scalar ''abc''), (''b'', Dict [(''c'', Scalar ''v'')])])"
  using
    dict_one_segment [of "Dict [(''secret'', Scalar ''abc''), (''b'', Dict [(''c'', Scalar ''v'')])]"
      "\<lambda>s. s = ''abc''" "''secret''"]
    dict_one_segment [of "Dict [(''secret'', Scalar ''abc''), (''b'', Dict [(''c'', Scalar ''v'')])]"
      "\<lambda>s. s = ''xyz''" "''secret''"]
    dict_one_segment [of "Dict [(''secret'', Scalar ''abc''), (''b'', Dict [(''c'', Scalar ''v'')])]"
      "\<lambda>s. s = ''c''" "''b''"]
    dict_one_segment [of "Dict [(''secret'', Scalar ''abc''), (''b'', Dict [(''c'', Scalar ''v'')])]"
      "\<lambda>s. s = ''c''" "''missing''"]
  by (simp add: String_Dict Child_Dict isBlacklistedBlock_Dict_Nil)

text \<open>
  C3. At an array with one or more remaining segments the result is the disjunction,
  over every element of the array, of the traversal of that element with the same
  segment list: no segment is consumed, and one matching element is enough.
\<close>

theorem array_fan_out:
  "segments \<noteq> [] \<Longrightarrow>
   isBlacklistedBlock pattern segments (Array xs) =
     (\<exists>c\<in>set xs. isBlacklistedBlock pattern segments c)"
  by (rule isBlacklistedBlock_Array_segments)

theorem array_fan_out_witness:
  "[''a''] \<noteq> [] \<and>
   isBlacklistedBlock (\<lambda>s. s = ''secret'') [''a'']
     (Array [Dict [(''a'', Scalar ''x'')], Dict [(''a'', Scalar ''secret'')]]) \<and>
   \<not> isBlacklistedBlock (\<lambda>s. s = ''secret'') [''a'']
     (Array [Dict [(''a'', Scalar ''x'')], Dict [(''a'', Scalar ''y'')]])"
  using
    array_fan_out [of "[''a'']" "\<lambda>s. s = ''secret''"
      "[Dict [(''a'', Scalar ''x'')], Dict [(''a'', Scalar ''secret'')]]"]
    array_fan_out [of "[''a'']" "\<lambda>s. s = ''secret''"
      "[Dict [(''a'', Scalar ''x'')], Dict [(''a'', Scalar ''y'')]]"]
  by (simp add: isBlacklistedBlock_Dict_single)

text \<open>
  C4. At a dictionary with zero remaining segments the traversal reports a match if and
  only if the pattern matches at least one key name of the dictionary; two dictionaries
  with the same key names give the same result, whatever their values.
\<close>

theorem dict_zero_segments_key_names:
  "isBlacklistedBlock pattern [] (Dict kvs) = (\<exists>k\<in>set (GetFields (Dict kvs)). pattern k) \<and>
   (map fst kvs = map fst kvs' \<longrightarrow>
      isBlacklistedBlock pattern [] (Dict kvs) = isBlacklistedBlock pattern [] (Dict kvs'))"
  by (simp add: isBlacklistedBlock_Dict_Nil list_ex_iff)

theorem dict_zero_segments_key_names_witness:
  "isBlacklistedBlock (\<lambda>s. s = ''password'') [] (Dict [(''password'', Scalar ''x'')]) \<and>
   isBlacklistedBlock (\<lambda>s. s = ''password'') []
     (Dict [(''password'', Array [Scalar ''y'', Scalar ''z''])]) \<and>
   \<not> isBlacklistedBlock (\<lambda>s. s = ''password'') [] (Dict [(''user'', Scalar ''password'')])"
  using
    dict_zero_segments_key_names [of "\<lambda>s. s = ''password''" "[(''password'', Scalar ''x'')]"
      "[(''password'', Array [Scalar ''y'', Scalar ''z''])]"]
    dict_zero_segments_key_names [of "\<lambda>s. s = ''password''" "[(''user'', Scalar ''password'')]"
      "[(''user'', Scalar ''password'')]"]
  by auto

subsection \<open>Termination and the depth of the recursion\<close>

lemma fold_max_ge: "x \<in> set xs \<Longrightarrow> (x::nat) \<le> fold max xs a"
  by (simp add: Max.set_eq_fold [symmetric])

lemma depth_map_of:
  assumes "map_of kvs k = Some v"
  shows "depth v < depth (Dict kvs)"
proof -
  from assms have "(k, v) \<in> set kvs" by (rule map_of_SomeD)
  then have "depth v \<in> set (map (\<lambda>kv. depth (snd kv)) kvs)" by force
  then have "depth v \<le> fold max (map (\<lambda>kv. depth (snd kv)) kvs) 0" by (rule fold_max_ge)
  then show ?thesis by simp
qed

lemma depth_nth:
  assumes "i < length xs"
  shows "depth (xs ! i) < depth (Array xs)"
proof -
  from assms have "depth (xs ! i) \<in> set (map depth xs)" by simp
  then have "depth (xs ! i) \<le> fold max (map depth xs) 0" by (rule fold_max_ge)
  then show ?thesis by simp
qed

lemma depth_getField: "getField c name idx = Some d \<Longrightarrow> depth d < depth c"
  by (cases c) (auto split: if_splits simp del: depth.simps dest: depth_map_of depth_nth)

lemma depth_Child: "Child c name idx = Some d \<Longrightarrow> depth d < depth c"
  by (auto simp: Child_def split: option.splits config.splits simp del: depth.simps
      dest: depth_getField)

lemma loop_until_true_Some:
  "(\<And>x. x \<in> set xs \<Longrightarrow> body x = Some (g x)) \<Longrightarrow>
   loop_until_true body xs = Some (list_ex g xs)"
  by (induction xs) (auto split: bool.splits)

text \<open>
  C8. The traversal terminates on every tree and every segment list. The function
  \<open>isBlacklistedBlock\<close> is total: its definition is accepted with the size of the
  node as measure, since every recursive call is on a child of the current node
  (\<open>size_Child\<close>). The depth of the recursion is bounded by the depth of the tree:
  the traversal that counts its nested calls returns, with the same result, as soon as
  it may nest more calls than the tree is deep.
\<close>

theorem isBlacklistedBlock_fuel_enough:
  "depth current < n \<Longrightarrow>
   isBlacklistedBlock_fuel n pattern segments current =
     Some (isBlacklistedBlock pattern segments current)"
proof (induction n arbitrary: segments current)
  case 0
  then show ?case by simp
next
  case (Suc n)
  have child: "isBlacklistedBlock_fuel n pattern s child = Some (isBlacklistedBlock pattern s child)"
    if "Child current name idx = Some child" for s child name idx
  proof -
    from that have "depth child < depth current" by (rule depth_Child)
    with Suc.prems have "depth child < n" by simp
    then show ?thesis by (rule Suc.IH)
  qed
  have dict: "(case Child current name idx of
                 None \<Rightarrow> Return (Some False)
               | Some child \<Rightarrow> Return (isBlacklistedBlock_fuel n pattern s child)) =
              Return (Some (case Child current name idx of
                 None \<Rightarrow> False
               | Some child \<Rightarrow> isBlacklistedBlock pattern s child))" for name idx s
    by (auto split: option.splits simp: child)
  have loopN: "loop_until_true (\<lambda>i. case Child current [] (int i) of
                   None \<Rightarrow> Some False
                 | Some child \<Rightarrow> isBlacklistedBlock_fuel n pattern s child) xs =
               Some (list_ex (\<lambda>i. case Child current [] (int i) of
                   None \<Rightarrow> False
                 | Some child \<Rightarrow> isBlacklistedBlock pattern s child) xs)" for xs s
    by (rule loop_until_true_Some) (auto split: option.splits simp: child)
  have loop0: "loop_until_true (\<lambda>i.
                   if (case String current [] (int i) of
                         Some val \<Rightarrow> pattern val
                       | None \<Rightarrow> False)
                   then Some True
                   else (case Child current [] (int i) of
                           None \<Rightarrow> Some False
                         | Some child \<Rightarrow> isBlacklistedBlock_fuel n pattern s child)) xs =
               Some (list_ex (\<lambda>i.
                   (case String current [] (int i) of
                      Some val \<Rightarrow> pattern val
                    | None \<Rightarrow> False) \<or>
                   (case Child current [] (int i) of
                      None \<Rightarrow> False
                    | Some child \<Rightarrow> isBlacklistedBlock pattern s child)) xs)" for xs s
    by (rule loop_until_true_Some) (auto split: option.splits simp: child)
  show ?case
    by (subst isBlacklistedBlock.simps)
      (simp add: dict loopN loop0 split: list.splits option.splits)
qed

theorem isBlacklistedBlock_fuel_enough_witness:
  "depth (Dict [(''list'', Array [Scalar ''x'', Scalar ''y-secret''])]) < Suc (Suc (Suc 0)) \<and>
   isBlacklistedBlock_fuel (Suc (Suc (Suc 0))) (\<lambda>s. s = ''y-secret'') [''list'']
     (Dict [(''list'', Array [Scalar ''x'', Scalar ''y-secret''])]) = Some True \<and>
   isBlacklistedBlock_fuel (Suc 0) (\<lambda>s. s = ''y-secret'') [''list'']
     (Dict [(''list'', Array [Scalar ''x'', Scalar ''y-secret''])]) = None"
  using isBlacklistedBlock_fuel_enough
    [of "Dict [(''list'', Array [Scalar ''x'', Scalar ''y-secret''])]" "Suc (Suc (Suc 0))"
      "\<lambda>s. s = ''y-secret''" "[''list'']"]
  by (simp add: String_Dict Child_Dict isBlacklistedBlock_Dict_single
      isBlacklistedBlock_Array_Nil)

subsection \<open>Which entries of the registry are applied to a block\<close>

lemma isBlacklisted_range_Cons:
  "isBlacklisted_range bt cfg (e # post) =
     (isBlacklisted_range bt cfg [e] \<or> isBlacklisted_range bt cfg post)"
  by (cases e) (simp add: Let_def)

lemma isBlacklisted_range_append:
  "isBlacklisted_range bt cfg (pre @ post) =
     (isBlacklisted_range bt cfg pre \<or> isBlacklisted_range bt cfg post)"
proof (induction pre)
  case Nil
  show ?case by simp
next
  case (Cons e pre)
  have "isBlacklisted_range bt cfg ((e # pre) @ post) =
        (isBlacklisted_range bt cfg [e] \<or> isBlacklisted_range bt cfg (pre @ post))"
    using isBlacklisted_range_Cons [of bt cfg e "pre @ post"] by simp
  also have "\<dots> = (isBlacklisted_range bt cfg [e] \<or> isBlacklisted_range bt cfg pre \<or>
        isBlacklisted_range bt cfg post)"
    by (simp only: Cons.IH)
  also have "\<dots> = (isBlacklisted_range bt cfg (e # pre) \<or> isBlacklisted_range bt cfg post)"
    using isBlacklisted_range_Cons [of bt cfg e pre] by blast
  finally show ?case .
qed

lemma isBlacklisted_range_single:
  "isBlacklisted_range bt cfg [(field, pattern)] =
     (if Contains field ''.'' then
        HasPrefix field (bt @ ''.'') \<and>
        isBlacklistedBlock pattern
          (if length bt + 1 < length field
           then Split (drop (length bt + 1) field) (CHR ''.'') else [])
          cfg
      else
        HasPrefix field bt \<and>
        isBlacklistedBlock pattern
          (if length bt < length field then Split (drop (length bt) field) (CHR ''.'') else [])
          cfg)"
  by (simp add: Let_def)

lemma isBlacklisted_split:
  "patterns c = pre @ (field, pattern) # post \<Longrightarrow>
   isBlacklisted c bt block =
     (isBlacklisted (c\<lparr>patterns := pre @ post\<rparr>) bt block \<or>
      (\<exists>cfg. ConfigWithMeta block = Some cfg \<and> isBlacklisted_range bt cfg [(field, pattern)]))"
  using isBlacklisted_range_append [of bt _ pre "(field, pattern) # post"]
    isBlacklisted_range_append [of bt _ pre post]
    isBlacklisted_range_Cons [of bt _ "(field, pattern)" post]
  by (auto simp: isBlacklisted_def split: option.splits)

text \<open>
  C1, as the code has it. For an entry \<open>(field, pattern)\<close> of the registry and a block
  of type \<open>blockType\<close>:
  \<^item> an entry whose path does not begin with the block type is never applied: detection
    for the block is what it is without the entry, whatever the block contains;
  \<^item> an entry whose path contains a dot is applied if and only if the path begins with the
    block type followed by a dot, and then the rest of the path, split at the dots, is the
    segment list (so a path that equals a block type with a dot in it is not applied);
  \<^item> an entry whose path has no dot and equals the block type is applied with zero
    segments.
  Nothing is said about a path without a dot that is longer than the block type it begins
  with.
\<close>

theorem prefix_entries_applied:
  assumes "patterns c = pre @ (field, pattern) # post"
  shows
    "(\<not> HasPrefix field blockType \<longrightarrow>
        isBlacklisted c blockType block =
          isBlacklisted (c\<lparr>patterns := pre @ post\<rparr>) blockType block) \<and>
     (Contains field ''.'' \<longrightarrow>
        isBlacklisted c blockType block =
          (isBlacklisted (c\<lparr>patterns := pre @ post\<rparr>) blockType block \<or>
           HasPrefix field (blockType @ ''.'') \<and>
           (\<exists>cfg. ConfigWithMeta block = Some cfg \<and>
              isBlacklistedBlock pattern
                (if length blockType + 1 < length field
                 then Split (drop (length blockType + 1) field) (CHR ''.'') else [])
                cfg))) \<and>
     (field = blockType \<and> \<not> Contains blockType ''.'' \<longrightarrow>
        isBlacklisted c blockType block =
          (isBlacklisted (c\<lparr>patterns := pre @ post\<rparr>) blockType block \<or>
           (\<exists>cfg. ConfigWithMeta block = Some cfg \<and> isBlacklistedBlock pattern [] cfg)))"
proof (intro conjI impI)
  assume n: "\<not> HasPrefix field blockType"
  then have "\<not> HasPrefix field (blockType @ ''.'')" using HasPrefix_append by blast
  with n have "\<not> isBlacklisted_range blockType cfg [(field, pattern)]" for cfg
    by (simp add: isBlacklisted_range_single)
  then show "isBlacklisted c blockType block =
      isBlacklisted (c\<lparr>patterns := pre @ post\<rparr>) blockType block"
    by (simp add: isBlacklisted_split [OF assms])
next
  assume "Contains field ''.''"
  then show "isBlacklisted c blockType block =
          (isBlacklisted (c\<lparr>patterns := pre @ post\<rparr>) blockType block \<or>
           HasPrefix field (blockType @ ''.'') \<and>
           (\<exists>cfg. ConfigWithMeta block = Some cfg \<and>
              isBlacklistedBlock pattern
                (if length blockType + 1 < length field
                 then Split (drop (length blockType + 1) field) (CHR ''.'') else [])
                cfg))"
    by (auto simp add: isBlacklisted_split [OF assms] isBlacklisted_range_single)
next
  assume "field = blockType \<and> \<not> Contains blockType ''.''"
  then show "isBlacklisted c blockType block =
          (isBlacklisted (c\<lparr>patterns := pre @ post\<rparr>) blockType block \<or>
           (\<exists>cfg. ConfigWithMeta block = Some cfg \<and> isBlacklistedBlock pattern [] cfg))"
    by (auto simp add: isBlacklisted_split [OF assms] isBlacklisted_range_single HasPrefix_self)
qed

theorem prefix_entries_applied_witness:
  "isBlacklisted
     \<lparr>patterns = [(''metricbeat.modules.module'', \<lambda>s. s = ''log''),
                  (''filebeat.inputs.type'', \<lambda>s. s = ''log'')]\<rparr>
     ''filebeat.inputs'' (WellFormed (Dict [(''type'', Scalar ''log'')])) \<and>
   \<not> isBlacklisted \<lparr>patterns = [(''metricbeat.modules.module'', \<lambda>s. s = ''log'')]\<rparr>
     ''filebeat.inputs'' (WellFormed (Dict [(''module'', Scalar ''log'')])) \<and>
   isBlacklisted \<lparr>patterns = [(''output'', \<lambda>s. s = ''console'')]\<rparr>
     ''output'' (WellFormed (Dict [(''console'', Dict [])]))"
  using
    prefix_entries_applied
      [of "\<lparr>patterns = [(''metricbeat.modules.module'', \<lambda>s. s = ''log''),
                  (''filebeat.inputs.type'', \<lambda>s. s = ''log'')]\<rparr>"
      "[(''metricbeat.modules.module'', \<lambda>s. s = ''log'')]" "''filebeat.inputs.type''"
      "\<lambda>s. s = ''log''" "[]" "''filebeat.inputs''" "WellFormed (Dict [(''type'', Scalar ''log'')])"]
    prefix_entries_applied
      [of "\<lparr>patterns = [(''metricbeat.modules.module'', \<lambda>s. s = ''log'')]\<rparr>"
      "[]" "''metricbeat.modules.module''"
      "\<lambda>s. s = ''log''" "[]" "''filebeat.inputs''" "WellFormed (Dict [(''module'', Scalar ''log'')])"]
    prefix_entries_applied
      [of "\<lparr>patterns = [(''output'', \<lambda>s. s = ''console'')]\<rparr>"
      "[]" "''output''"
      "\<lambda>s. s = ''console''" "[]" "''output''" "WellFormed (Dict [(''console'', Dict [])])"]
  by (simp add: HasPrefix_def isBlacklisted_def isBlacklistedBlock.simps String_def)

text \<open>
  The claim C1 as the specification states it fails in both directions. The path
  \<^verbatim>\<open>outputs\<close> is not in the prefix-owner relation to the block type
  \<^verbatim>\<open>output\<close>, yet its entry is applied (with the segment \<^verbatim>\<open>s\<close>) and
  detects the block. The path \<^verbatim>\<open>filebeat.inputs\<close> equals the block type
  \<^verbatim>\<open>filebeat.inputs\<close>, yet its entry is not applied, although the traversal with
  zero segments matches the key name.
\<close>

theorem prefix_owner_counterexample:
  "isBlacklisted \<lparr>patterns = [(''outputs'', \<lambda>s. s = ''x'')]\<rparr> ''output''
       (WellFormed (Dict [(''s'', Scalar ''x'')])) \<and>
   \<not> prefix_owner ''output'' ''outputs'' \<and>
   \<not> isBlacklisted \<lparr>patterns = [(''filebeat.inputs'', \<lambda>s. s = ''type'')]\<rparr> ''filebeat.inputs''
         (WellFormed (Dict [(''type'', Scalar ''log'')])) \<and>
   prefix_owner ''filebeat.inputs'' ''filebeat.inputs'' \<and>
   isBlacklistedBlock (\<lambda>s. s = ''type'') [] (Dict [(''type'', Scalar ''log'')])"
  by (simp add: isBlacklisted_def prefix_owner_def HasPrefix_def Let_def
      isBlacklistedBlock.simps String_def)

subsection \<open>Detection over a batch of blocks\<close>

lemma Detect_blocks_eq:
  "Detect_blocks c t bs errs =
     errs @ map (\<lambda>b. Error ConfigError
                        (''Config for '' @ [CHR 0x27] @ t @ [CHR 0x27] @ '' is blacklisted''))
              (filter (isBlacklisted c t) bs)"
  by (induction bs arbitrary: errs) auto

lemma Detect_groups_eq:
  "Detect_groups c gs errs =
     errs @ concat (map (\<lambda>g.
        map (\<lambda>b. Error ConfigError
                    (''Config for '' @ [CHR 0x27] @ Type g @ [CHR 0x27] @ '' is blacklisted''))
          (filter (isBlacklisted c (Type g)) (Blocks g))) gs)"
  by (induction gs arbitrary: errs) (simp_all add: Detect_blocks_eq)

lemma Detect_eq:
  "Detect c gs =
     concat (map (\<lambda>g.
        map (\<lambda>b. Error ConfigError
                    (''Config for '' @ [CHR 0x27] @ Type g @ [CHR 0x27] @ '' is blacklisted''))
          (filter (isBlacklisted c (Type g)) (Blocks g))) gs)"
  by (simp add: Detect_def Detect_groups_eq)

lemma isBlacklisted_tested_fst_Cons:
  "fst (isBlacklisted_tested bt cfg (e # rest)) =
     (isBlacklisted_range bt cfg [e] \<or> fst (isBlacklisted_tested bt cfg rest))"
  by (cases e) (simp add: Let_def split: prod.splits)

lemma isBlacklisted_tested_fst:
  "fst (isBlacklisted_tested bt cfg ps) = isBlacklisted_range bt cfg ps"
proof (induction ps)
  case Nil
  show ?case by simp
next
  case (Cons e ps)
  show ?case
    using Cons.IH isBlacklisted_tested_fst_Cons [of bt cfg e ps]
      isBlacklisted_range_Cons [of bt cfg e ps] by blast
qed

lemma isBlacklisted_tested_fires:
  "isBlacklisted_range bt cfg [e] \<Longrightarrow> isBlacklisted_tested bt cfg (e # rest) = (True, [fst e])"
  by (cases e) (simp add: Let_def split: if_splits)

lemma isBlacklisted_tested_cong:
  "isBlacklisted_tested bt cfg xs = isBlacklisted_tested bt cfg ys \<Longrightarrow>
   isBlacklisted_tested bt cfg (a # xs) = isBlacklisted_tested bt cfg (a # ys)"
  by (cases a) (simp add: Let_def)

lemma isBlacklisted_tested_cut:
  "isBlacklisted_range bt cfg [e] \<Longrightarrow>
   isBlacklisted_tested bt cfg (pre @ e # post) = isBlacklisted_tested bt cfg (pre @ [e])"
proof (induction pre)
  case Nil
  then show ?case by (simp add: isBlacklisted_tested_fires)
next
  case (Cons a pre)
  from Cons.IH [OF Cons.prems] show ?case
    using isBlacklisted_tested_cong [of bt cfg "pre @ e # post" "pre @ [e]" a] by simp
qed

lemma isBlacklisted_tested_skip:
  "\<not> isBlacklisted_range bt cfg [a] \<Longrightarrow>
   snd (isBlacklisted_tested bt cfg (a # xs)) =
     snd (isBlacklisted_tested bt cfg [a]) @ snd (isBlacklisted_tested bt cfg xs)"
  by (cases a) (auto simp add: Let_def split: prod.splits if_splits)

lemma isBlacklisted_tested_first_match:
  "\<not> isBlacklisted_range bt cfg pre \<Longrightarrow> isBlacklisted_range bt cfg [e] \<Longrightarrow>
   isBlacklisted_tested bt cfg (pre @ e # post) =
     (True, snd (isBlacklisted_tested bt cfg pre) @ [fst e])"
proof (induction pre)
  case Nil
  then show ?case by (simp add: isBlacklisted_tested_fires)
next
  case (Cons a pre)
  from Cons.prems(1) have na: "\<not> isBlacklisted_range bt cfg [a]"
    and np: "\<not> isBlacklisted_range bt cfg pre"
    using isBlacklisted_range_Cons [of bt cfg a pre] by blast+
  have f: "fst (isBlacklisted_tested bt cfg ((a # pre) @ e # post))"
    using Cons.prems(2) isBlacklisted_range_append [of bt cfg "a # pre" "e # post"]
      isBlacklisted_range_Cons [of bt cfg e post]
    by (simp only: isBlacklisted_tested_fst) blast
  have "snd (isBlacklisted_tested bt cfg ((a # pre) @ e # post)) =
        snd (isBlacklisted_tested bt cfg [a]) @ snd (isBlacklisted_tested bt cfg (pre @ e # post))"
    using isBlacklisted_tested_skip [OF na, of "pre @ e # post"] by simp
  also have "\<dots> = snd (isBlacklisted_tested bt cfg [a]) @
        snd (isBlacklisted_tested bt cfg pre) @ [fst e]"
    by (simp add: Cons.IH [OF np Cons.prems(2)])
  also have "\<dots> = snd (isBlacklisted_tested bt cfg (a # pre)) @ [fst e]"
    using isBlacklisted_tested_skip [OF na, of pre] by simp
  finally show ?case using f by (simp add: prod_eq_iff)
qed

text \<open>
  C5. \<open>Detect\<close> records, in order, one detection for every blacklisted block and none
  for the others; the detection carries \<open>ConfigError\<close> and the message
  \<^verbatim>\<open>Config for '<type>' is blacklisted\<close> with the block type of the group, so a
  block contributes at most one detection. Whether a block is blacklisted is the result of
  the loop that records the entries it tests, and that loop stops at the first entry
  whose traversal reports a match: it returns \<^verbatim>\<open>true\<close>, the entries it tested
  are the applicable ones before that entry and that entry, and no entry after it is
  tested.
\<close>

theorem Detect_one_detection_per_block:
  "Detect c configBlocks =
     concat (map (\<lambda>configs.
        map (\<lambda>block. Error ConfigError
               (''Config for '' @ [CHR 0x27] @ Type configs @ [CHR 0x27] @ '' is blacklisted''))
          (filter (isBlacklisted c (Type configs)) (Blocks configs))) configBlocks) \<and>
   length (Detect c configBlocks) \<le> length (concat (map Blocks configBlocks)) \<and>
   isBlacklisted c blockType block =
     (case ConfigWithMeta block of
        None \<Rightarrow> False
      | Some cfg \<Rightarrow> fst (isBlacklisted_tested blockType cfg (patterns c))) \<and>
   (\<forall>cfg pre e post.
      patterns c = pre @ e # post \<and> isBlacklisted_range blockType cfg [e] \<longrightarrow>
      isBlacklisted_tested blockType cfg (patterns c) =
        isBlacklisted_tested blockType cfg (pre @ [e])) \<and>
   (\<forall>cfg pre e post.
      patterns c = pre @ e # post \<and> \<not> isBlacklisted_range blockType cfg pre \<and>
      isBlacklisted_range blockType cfg [e] \<longrightarrow>
      isBlacklisted_tested blockType cfg (patterns c) =
        (True, snd (isBlacklisted_tested blockType cfg pre) @ [fst e]))"
proof (intro conjI allI impI)
  show "Detect c configBlocks =
     concat (map (\<lambda>configs.
        map (\<lambda>block. Error ConfigError
               (''Config for '' @ [CHR 0x27] @ Type configs @ [CHR 0x27] @ '' is blacklisted''))
          (filter (isBlacklisted c (Type configs)) (Blocks configs))) configBlocks)"
    by (rule Detect_eq)
  show "length (Detect c configBlocks) \<le> length (concat (map Blocks configBlocks))"
    unfolding Detect_eq
    by (induction configBlocks) (auto intro: le_trans [OF add_le_mono [OF length_filter_le]])
  show "isBlacklisted c blockType block =
     (case ConfigWithMeta block of
        None \<Rightarrow> False
      | Some cfg \<Rightarrow> fst (isBlacklisted_tested blockType cfg (patterns c)))"
    by (simp add: isBlacklisted_def isBlacklisted_tested_fst split: option.splits)
next
  fix cfg pre e post
  assume "patterns c = pre @ e # post \<and> isBlacklisted_range blockType cfg [e]"
  then have p: "patterns c = pre @ e # post" and r: "isBlacklisted_range blockType cfg [e]"
    by blast+
  show "isBlacklisted_tested blockType cfg (patterns c) =
        isBlacklisted_tested blockType cfg (pre @ [e])"
    unfolding p by (rule isBlacklisted_tested_cut [OF r])
next
  fix cfg pre e post
  assume "patterns c = pre @ e # post \<and> \<not> isBlacklisted_range blockType cfg pre \<and>
      isBlacklisted_range blockType cfg [e]"
  then have p: "patterns c = pre @ e # post" and n: "\<not> isBlacklisted_range blockType cfg pre"
    and r: "isBlacklisted_range blockType cfg [e]"
    by blast+
  show "isBlacklisted_tested blockType cfg (patterns c) =
        (True, snd (isBlacklisted_tested blockType cfg pre) @ [fst e])"
    unfolding p by (rule isBlacklisted_tested_first_match [OF n r])
qed

theorem Detect_one_detection_per_block_witness:
  "\<not> isBlacklisted_range ''output'' (Dict [(''console'', Dict [(''pretty'', Scalar ''true'')])])
     [(''filebeat.inputs.type'', \<lambda>s. s = ''log''),
      (''output.console.codec'', \<lambda>s. s = ''json'')] \<and>
   isBlacklisted_range ''output'' (Dict [(''console'', Dict [(''pretty'', Scalar ''true'')])])
     [(''output'', \<lambda>s. s = ''console'')] \<and>
   isBlacklisted_range ''output'' (Dict [(''console'', Dict [(''pretty'', Scalar ''true'')])])
     [(''output.console.pretty'', \<lambda>s. s = ''true'')] \<and>
   isBlacklisted_tested ''output'' (Dict [(''console'', Dict [(''pretty'', Scalar ''true'')])])
     [(''filebeat.inputs.type'', \<lambda>s. s = ''log''),
      (''output.console.codec'', \<lambda>s. s = ''json''),
      (''output'', \<lambda>s. s = ''console''),
      (''output.console.pretty'', \<lambda>s. s = ''true'')] =
     (True, [''output.console.codec'', ''output'']) \<and>
   Detect
     \<lparr>patterns = [(''filebeat.inputs.type'', \<lambda>s. s = ''log''),
                  (''output.console.codec'', \<lambda>s. s = ''json''),
                  (''output'', \<lambda>s. s = ''console''),
                  (''output.console.pretty'', \<lambda>s. s = ''true'')]\<rparr>
     [\<lparr>Type = ''output'',
       Blocks = [WellFormed (Dict [(''console'', Dict [(''pretty'', Scalar ''true'')])]),
                 WellFormed (Dict [(''elasticsearch'', Dict [(''pretty'', Scalar ''true'')])])]\<rparr>] =
   [Error ConfigError (''Config for '' @ [CHR 0x27] @ ''output'' @ [CHR 0x27] @ '' is blacklisted'')]"
proof -
  let ?cfg = "Dict [(''console'', Dict [(''pretty'', Scalar ''true'')])]"
  let ?other = "Dict [(''elasticsearch'', Dict [(''pretty'', Scalar ''true'')])]"
  let ?pre = "[(''filebeat.inputs.type'', \<lambda>s. s = ''log''),
               (''output.console.codec'', \<lambda>s. s = ''json'')]"
  let ?e = "(''output'', \<lambda>s. s = ''console'')"
  let ?post = "[(''output.console.pretty'', \<lambda>s. s = ''true'')]"
  let ?c = "\<lparr>patterns = ?pre @ ?e # ?post\<rparr>"
  let ?groups = "[\<lparr>Type = ''output'', Blocks = [WellFormed ?cfg, WellFormed ?other]\<rparr>]"
  note T = Detect_one_detection_per_block [of ?c ?groups "''output''" "WellFormed ?cfg"]
  have n: "\<not> isBlacklisted_range ''output'' ?cfg ?pre"
    by (simp add: HasPrefix_def Let_def isBlacklistedBlock.simps String_def Child_def)
  have r: "isBlacklisted_range ''output'' ?cfg [?e]"
    by (simp add: HasPrefix_def Let_def isBlacklistedBlock.simps)
  have r2: "isBlacklisted_range ''output'' ?cfg ?post"
    by (simp add: HasPrefix_def Let_def isBlacklistedBlock.simps String_def Child_def)
  from T have "\<forall>cfg pre e post.
      patterns ?c = pre @ e # post \<and> \<not> isBlacklisted_range ''output'' cfg pre \<and>
      isBlacklisted_range ''output'' cfg [e] \<longrightarrow>
      isBlacklisted_tested ''output'' cfg (patterns ?c) =
        (True, snd (isBlacklisted_tested ''output'' cfg pre) @ [fst e])"
    by blast
  then have "isBlacklisted_tested ''output'' ?cfg (patterns ?c) =
        (True, snd (isBlacklisted_tested ''output'' ?cfg ?pre) @ [fst ?e])"
    using n r by (elim allE [where x = ?cfg] allE [where x = ?pre] allE [where x = ?e]
        allE [where x = ?post]) simp
  moreover have "snd (isBlacklisted_tested ''output'' ?cfg ?pre) = [''output.console.codec'']"
    by (simp add: HasPrefix_def Let_def isBlacklistedBlock.simps String_def Child_def)
  ultimately have t: "isBlacklisted_tested ''output'' ?cfg (?pre @ ?e # ?post) =
      (True, [''output.console.codec'', ''output''])"
    by simp
  have b1: "isBlacklisted ?c ''output'' (WellFormed ?cfg)"
    using T t by simp
  have b2: "\<not> isBlacklisted ?c ''output'' (WellFormed ?other)"
    by (simp add: isBlacklisted_def HasPrefix_def Let_def isBlacklistedBlock.simps
        String_def Child_def)
  from T have "Detect ?c ?groups =
     concat (map (\<lambda>configs.
        map (\<lambda>block. Error ConfigError
               (''Config for '' @ [CHR 0x27] @ Type configs @ [CHR 0x27] @ '' is blacklisted''))
          (filter (isBlacklisted ?c (Type configs)) (Blocks configs))) ?groups)"
    by blast
  with b1 b2 have d: "Detect ?c ?groups =
      [Error ConfigError (''Config for '' @ [CHR 0x27] @ ''output'' @ [CHR 0x27] @ '' is blacklisted'')]"
    by simp
  from n r r2 t d show ?thesis by simp
qed

subsection \<open>Detection returns\<close>

lemma loop_checked_Inr:
  "(\<And>x. x \<in> set xs \<Longrightarrow> body x = Inr (g x)) \<Longrightarrow>
   loop_checked body xs = Inr (list_ex g xs)"
  by (induction xs) (auto split: bool.splits)

lemma isBlacklistedBlock_checked_eq:
  "isBlacklistedBlock_checked pattern segments current =
     Inr (isBlacklistedBlock pattern segments current)"
proof (induction current arbitrary: segments rule: measure_induct_rule [where f = size])
  case (less current)
  have child: "isBlacklistedBlock_checked pattern s child = Inr (isBlacklistedBlock pattern s child)"
    if "Child current name idx = Some child" for s child name idx
    using that by (intro less.IH) (rule size_Child)
  have dict: "(case Child current name idx of
                 None \<Rightarrow> Return (Inr False)
               | Some child \<Rightarrow> Return (isBlacklistedBlock_checked pattern s child)) =
              Return (Inr (case Child current name idx of
                 None \<Rightarrow> False
               | Some child \<Rightarrow> isBlacklistedBlock pattern s child))" for name idx s
    by (auto split: option.splits simp: child)
  have loopN: "loop_checked (\<lambda>i. case Child current [] (int i) of
                   None \<Rightarrow> Inr False
                 | Some child \<Rightarrow> isBlacklistedBlock_checked pattern s child) xs =
               Inr (list_ex (\<lambda>i. case Child current [] (int i) of
                   None \<Rightarrow> False
                 | Some child \<Rightarrow> isBlacklistedBlock pattern s child) xs)" for xs s
    by (rule loop_checked_Inr) (auto split: option.splits simp: child)
  have loop0: "loop_checked (\<lambda>i.
                   if (case String current [] (int i) of
                         Some val \<Rightarrow> pattern val
                       | None \<Rightarrow> False)
                   then Inr True
                   else (case Child current [] (int i) of
                           None \<Rightarrow> Inr False
                         | Some child \<Rightarrow> isBlacklistedBlock_checked pattern s child)) xs =
               Inr (list_ex (\<lambda>i.
                   (case String current [] (int i) of
                      Some val \<Rightarrow> pattern val
                    | None \<Rightarrow> False) \<or>
                   (case Child current [] (int i) of
                      None \<Rightarrow> False
                    | Some child \<Rightarrow> isBlacklistedBlock pattern s child)) xs)" for xs s
    by (rule loop_checked_Inr) (auto split: option.splits simp: child)
  show ?case
  proof (cases segments)
    case Nil
    then show ?thesis
      by (subst isBlacklistedBlock_checked.simps, subst isBlacklistedBlock.simps)
        (simp add: loop0)
  next
    case (Cons seg rest)
    show ?thesis
    proof (cases rest)
      case Nil
      with Cons show ?thesis
        by (subst isBlacklistedBlock_checked.simps, subst isBlacklistedBlock.simps)
          (auto simp: index_def slice_from_def loopN child split: option.splits)
    next
      case (Cons s2 rest2)
      with \<open>segments = seg # rest\<close> show ?thesis
        by (subst isBlacklistedBlock_checked.simps, subst isBlacklistedBlock.simps)
          (auto simp: index_def slice_from_def loopN child split: option.splits)
    qed
  qed
qed

lemma isBlacklisted_range_checked_eq:
  "isBlacklisted_range_checked bt cfg ps = Inr (isBlacklisted_range bt cfg ps)"
  by (induction bt cfg ps rule: isBlacklisted_range.induct)
    (simp_all add: Let_def slice_from_def HasPrefix_def isBlacklistedBlock_checked_eq)

lemma isBlacklisted_checked_eq:
  "isBlacklisted_checked c bt block = Inr (isBlacklisted c bt block)"
  by (simp add: isBlacklisted_checked_def isBlacklisted_def isBlacklisted_range_checked_eq
      split: option.splits)

lemma Detect_blocks_checked_eq:
  "Detect_blocks_checked c t bs errs = Inr (Detect_blocks c t bs errs)"
  by (induction bs arbitrary: errs) (simp_all add: isBlacklisted_checked_eq)

lemma Detect_groups_checked_eq:
  "Detect_groups_checked c gs errs = Inr (Detect_groups c gs errs)"
  by (induction gs arbitrary: errs) (simp_all add: Detect_blocks_checked_eq)

text \<open>
  C6. A block whose configuration cannot be read into the tree form is not blacklisted,
  and the batch gives the detections it gives without that block: the blocks before and
  after it, in its group and in the other groups, are detected as before. \<open>Detect\<close>
  returns a list of detections on every batch: none of its indexing and slicing
  operations fails, with or without a malformed block in the batch.
\<close>

theorem malformed_block_skipped:
  assumes "ConfigWithMeta block = None"
  shows "\<not> isBlacklisted c blockType block \<and>
     isBlacklisted_checked c blockType block = Inr False \<and>
     Detect c (before @ \<lparr>Type = t, Blocks = bs1 @ block # bs2\<rparr> # after) =
     Detect c (before @ \<lparr>Type = t, Blocks = bs1 @ bs2\<rparr> # after) \<and>
     Detect_checked c (before @ \<lparr>Type = t, Blocks = bs1 @ block # bs2\<rparr> # after) =
     Inr (Detect c (before @ \<lparr>Type = t, Blocks = bs1 @ bs2\<rparr> # after)) \<and>
     Detect_checked c configBlocks = Inr (Detect c configBlocks)"
proof -
  have n: "\<not> isBlacklisted c bt block" for bt
    using assms by (simp add: isBlacklisted_def)
  have d: "Detect_checked c gs = Inr (Detect c gs)" for gs
    by (simp add: Detect_checked_def Detect_def Detect_groups_checked_eq)
  from n show ?thesis by (simp add: d isBlacklisted_checked_eq) (simp add: Detect_eq)
qed

theorem malformed_block_skipped_witness:
  "ConfigWithMeta Malformed = None \<and>
   Detect \<lparr>patterns = [(''output'', \<lambda>s. s = ''console'')]\<rparr>
     [\<lparr>Type = ''output'',
       Blocks = [Malformed, WellFormed (Dict [(''console'', Dict [])])]\<rparr>] =
   [Error ConfigError (''Config for '' @ [CHR 0x27] @ ''output'' @ [CHR 0x27] @ '' is blacklisted'')] \<and>
   Detect_checked \<lparr>patterns = [(''output'', \<lambda>s. s = ''console'')]\<rparr>
     [\<lparr>Type = ''output'',
       Blocks = [Malformed, WellFormed (Dict [(''console'', Dict [])])]\<rparr>] =
   Inr [Error ConfigError
          (''Config for '' @ [CHR 0x27] @ ''output'' @ [CHR 0x27] @ '' is blacklisted'')]"
  using malformed_block_skipped
    [of Malformed "\<lparr>patterns = [(''output'', \<lambda>s. s = ''console'')]\<rparr>" "''output''"
      "[]" "''output''" "[]" "[WellFormed (Dict [(''console'', Dict [])])]" "[]" "[]"]
  by (simp add: Detect_eq isBlacklisted_def HasPrefix_def Let_def isBlacklistedBlock.simps)

subsection \<open>Building the registry and unpacking the settings\<close>

lemma update_fresh: "k \<notin> fst ` set acc \<Longrightarrow> AList.update k v acc = acc @ [(k, v)]"
  by (induction acc) auto

lemma fold_update_distinct:
  "distinct (map fst kvs) \<Longrightarrow> fst ` set kvs \<inter> fst ` set acc = {} \<Longrightarrow>
   fold (\<lambda>(k, v) acc. AList.update k (g v) acc) kvs acc = acc @ map (\<lambda>(k, v). (k, g v)) kvs"
proof (induction kvs arbitrary: acc)
  case Nil
  show ?case by simp
next
  case (Cons kv kvs)
  obtain k v where kv: "kv = (k, v)" by (cases kv)
  from Cons.prems kv have fresh: "k \<notin> fst ` set acc" by auto
  from Cons.prems kv have d: "distinct (map fst kvs)" and nk: "k \<notin> fst ` set kvs" by auto
  from Cons.prems kv nk have disj: "fst ` set kvs \<inter> fst ` set (acc @ [(k, g v)]) = {}" by auto
  show ?case
    using Cons.IH [OF d disj] by (simp add: kv update_fresh [OF fresh])
qed

lemma NewConfigBlacklist_range_Inl:
  "NewConfigBlacklist_range Compile ps l = Inl w \<Longrightarrow>
   \<exists>f p err. (f, p) \<in> set ps \<and> Compile p = Inl err \<and>
     w = Wrap err (''Given expression is not a valid regexp: '' @ p)"
proof (induction ps arbitrary: l)
  case Nil
  then show ?case by simp
next
  case (Cons e ps)
  obtain f p where e: "e = (f, p)" by (cases e)
  show ?case
  proof (cases "Compile p")
    case (Inl err)
    with Cons.prems e show ?thesis by auto
  next
    case (Inr exp)
    with Cons.prems e have "NewConfigBlacklist_range Compile ps
        (l\<lparr>patterns := AList.update f exp (patterns l)\<rparr>) = Inl w" by simp
    from Cons.IH [OF this] show ?thesis by auto
  qed
qed

lemma NewConfigBlacklist_range_fails:
  "(f, p) \<in> set ps \<Longrightarrow> Compile p = Inl err \<Longrightarrow>
   \<exists>w. NewConfigBlacklist_range Compile ps l = Inl w"
proof (induction ps arbitrary: l)
  case Nil
  then show ?case by simp
next
  case (Cons e ps)
  obtain f' p' where e: "e = (f', p')" by (cases e)
  show ?case
  proof (cases "Compile p'")
    case (Inl err')
    with e show ?thesis by simp
  next
    case (Inr exp)
    with Cons.prems e have "(f, p) \<in> set ps" by auto
    from Cons.IH [OF this Cons.prems(2)] Inr e show ?thesis by simp
  qed
qed

lemma NewConfigBlacklist_range_Inr:
  "\<forall>(f, p)\<in>set ps. \<not> isl (Compile p) \<Longrightarrow> distinct (map fst ps) \<Longrightarrow>
   fst ` set ps \<inter> fst ` set (patterns l) = {} \<Longrightarrow>
   NewConfigBlacklist_range Compile ps l =
     Inr (l\<lparr>patterns := patterns l @ map (\<lambda>(f, p). (f, projr (Compile p))) ps\<rparr>)"
proof (induction ps arbitrary: l)
  case Nil
  show ?case by simp
next
  case (Cons e ps)
  obtain f p where e: "e = (f, p)" by (cases e)
  from Cons.prems e obtain exp where c: "Compile p = Inr exp" by (cases "Compile p") auto
  from Cons.prems e have fresh: "f \<notin> fst ` set (patterns l)" by auto
  let ?l = "l\<lparr>patterns := AList.update f exp (patterns l)\<rparr>"
  have pl: "patterns ?l = patterns l @ [(f, exp)]" by (simp add: update_fresh [OF fresh])
  from Cons.prems e have a: "\<forall>(f, p)\<in>set ps. \<not> isl (Compile p)" and d: "distinct (map fst ps)"
    and nf: "f \<notin> fst ` set ps" by auto
  from Cons.prems e nf have disj: "fst ` set ps \<inter> fst ` set (patterns ?l) = {}"
    unfolding pl by auto
  show ?case
    using Cons.IH [OF a d disj] by (simp add: e c pl)
qed

text \<open>
  C7. When the compilation of some pattern of the settings fails, \<open>NewConfigBlacklist\<close>
  fails: its result is the error of one failing entry, wrapped with the message that
  ends with the offending pattern, and no registry. When every pattern compiles, the
  result is the registry that holds, for every entry of the settings and under the same
  path, the matcher compiled from its pattern, and nothing else. The keys of a Go map are
  distinct, which is the hypothesis on the list of the settings.
\<close>

theorem NewConfigBlacklist_all_or_nothing:
  "((\<exists>(f, p)\<in>set (Patterns cfg). isl (Compile p)) \<longrightarrow>
      (\<exists>f p err. (f, p) \<in> set (Patterns cfg) \<and> Compile p = Inl err \<and>
         NewConfigBlacklist Compile cfg =
           Inl (Wrap err (''Given expression is not a valid regexp: '' @ p)))) \<and>
   ((\<forall>(f, p)\<in>set (Patterns cfg). \<not> isl (Compile p)) \<and> distinct (map fst (Patterns cfg)) \<longrightarrow>
      NewConfigBlacklist Compile cfg =
        Inr \<lparr>patterns = map (\<lambda>(f, p). (f, projr (Compile p))) (Patterns cfg)\<rparr>)"
proof (intro conjI impI)
  assume "\<exists>(f, p)\<in>set (Patterns cfg). isl (Compile p)"
  then obtain f p err where "(f, p) \<in> set (Patterns cfg)" "Compile p = Inl err"
    by (auto simp: isl_def)
  from NewConfigBlacklist_range_fails
    [of f p "Patterns cfg" Compile err "\<lparr>patterns = []\<rparr>"] this
  obtain w where w: "NewConfigBlacklist_range Compile (Patterns cfg) \<lparr>patterns = []\<rparr> = Inl w"
    by blast
  from NewConfigBlacklist_range_Inl [OF w] w
  show "\<exists>f p err. (f, p) \<in> set (Patterns cfg) \<and> Compile p = Inl err \<and>
         NewConfigBlacklist Compile cfg =
           Inl (Wrap err (''Given expression is not a valid regexp: '' @ p))"
    unfolding NewConfigBlacklist_def by auto
next
  assume "(\<forall>(f, p)\<in>set (Patterns cfg). \<not> isl (Compile p)) \<and> distinct (map fst (Patterns cfg))"
  then show "NewConfigBlacklist Compile cfg =
        Inr \<lparr>patterns = map (\<lambda>(f, p). (f, projr (Compile p))) (Patterns cfg)\<rparr>"
    unfolding NewConfigBlacklist_def
    by (subst NewConfigBlacklist_range_Inr) simp_all
qed

theorem NewConfigBlacklist_all_or_nothing_witness:
  "NewConfigBlacklist (\<lambda>p. if p = ''['' then Inl ''missing closing ]'' else Inr (\<lambda>s. s = p))
     \<lparr>Patterns = [(''output'', ''console''), (''filebeat.inputs.type'', ''['')]\<rparr> =
     Inl (Wrap ''missing closing ]'' ''Given expression is not a valid regexp: ['') \<and>
   NewConfigBlacklist (\<lambda>p. if p = ''['' then Inl ''missing closing ]'' else Inr (\<lambda>s. s = p))
     \<lparr>Patterns = [(''output'', ''console''), (''filebeat.inputs.type'', ''log'')]\<rparr> =
     Inr \<lparr>patterns = [(''output'', \<lambda>s. s = ''console''),
                       (''filebeat.inputs.type'', \<lambda>s. s = ''log'')]\<rparr>"
  using
    NewConfigBlacklist_all_or_nothing
      [of "\<lparr>Patterns = [(''output'', ''console''), (''filebeat.inputs.type'', ''['')]\<rparr>"
        "\<lambda>p. if p = ''['' then Inl ''missing closing ]'' else Inr (\<lambda>s. s = p)"]
    NewConfigBlacklist_all_or_nothing
      [of "\<lparr>Patterns = [(''output'', ''console''), (''filebeat.inputs.type'', ''log'')]\<rparr>"
        "\<lambda>p. if p = ''['' then Inl ''missing closing ]'' else Inr (\<lambda>s. s = p)"]
  by (auto simp: isl_def)

text \<open>
  C9, as the code has it. \<open>Unpack\<close> returns an error exactly when the dynamic type
  of its input is not \<^verbatim>\<open>map[string]interface{}\<close> (so also on a string-keyed
  map of another type, such as \<^verbatim>\<open>map[string]string\<close> or
  \<^verbatim>\<open>common.MapStr\<close>), and then the settings are the ones it was given. On a
  \<^verbatim>\<open>map[string]interface{}\<close> it returns no error and the settings whose
  \<open>Patterns\<close> are the flattened map with every value replaced by its string form
  (the keys of the flattened Go map are distinct).
\<close>

theorem Unpack_result:
  "(snd (Unpack Flatten Sprintf f from) \<noteq> None) = (\<forall>m. from \<noteq> MapStringInterface m) \<and>
   ((\<forall>m. from \<noteq> MapStringInterface m) \<longrightarrow>
      Unpack Flatten Sprintf f from = (f, Some ''wrong type, map is expected'')) \<and>
   (\<forall>m. from = MapStringInterface m \<and> distinct (map fst (Flatten m)) \<longrightarrow>
      Unpack Flatten Sprintf f from =
        (f\<lparr>Patterns := map (\<lambda>(k, v). (k, Sprintf v)) (Flatten m)\<rparr>, None))"
  by (cases "from") (simp_all add: Unpack_def fold_update_distinct)

theorem Unpack_result_witness:
  "Unpack (\<lambda>m. m) (\<lambda>v. v) \<lparr>Patterns = [(''old'', ''x'')]\<rparr> (OtherValue ''output'') =
     (\<lparr>Patterns = [(''old'', ''x'')]\<rparr>, Some ''wrong type, map is expected'') \<and>
   Unpack (\<lambda>m. m) (\<lambda>v. v) \<lparr>Patterns = [(''old'', ''x'')]\<rparr>
     (MapStr [(''output'', ''console'')]) =
     (\<lparr>Patterns = [(''old'', ''x'')]\<rparr>, Some ''wrong type, map is expected'') \<and>
   Unpack (\<lambda>m. m) (\<lambda>v. v) \<lparr>Patterns = [(''old'', ''x'')]\<rparr>
     (MapStringInterface [(''output'', ''console''), (''filebeat.inputs.type'', ''log'')]) =
     (\<lparr>Patterns = [(''output'', ''console''), (''filebeat.inputs.type'', ''log'')]\<rparr>, None)"
  using
    Unpack_result [of "\<lambda>m. m" "\<lambda>v. v" "\<lparr>Patterns = [(''old'', ''x'')]\<rparr>"
      "OtherValue ''output''"]
    Unpack_result [of "\<lambda>m. m" "\<lambda>v. v" "\<lparr>Patterns = [(''old'', ''x'')]\<rparr>"
      "MapStr [(''output'', ''console'')]"]
    Unpack_result [of "\<lambda>m. m" "\<lambda>v. v" "\<lparr>Patterns = [(''old'', ''x'')]\<rparr>"
      "MapStringInterface [(''output'', ''console''), (''filebeat.inputs.type'', ''log'')]"]
  by simp

text \<open>
  The claim C9 as stated ("fails exactly when the input is not a string-keyed map") is
  false: a \<^verbatim>\<open>map[string]string\<close> and a \<^verbatim>\<open>common.MapStr\<close> are
  string-keyed maps, and \<open>Unpack\<close> returns the error on both and leaves the settings
  as they were.
\<close>

theorem Unpack_string_keyed_counterexample:
  "string_keyed_map (MapStringString [(''output'', ''console'')] :: string interface) \<and>
   Unpack (\<lambda>m. m) (\<lambda>v. v) \<lparr>Patterns = []\<rparr>
     (MapStringString [(''output'', ''console'')]) =
     (\<lparr>Patterns = []\<rparr>, Some ''wrong type, map is expected'') \<and>
   string_keyed_map (MapStr [(''output'', ''console'')]) \<and>
   Unpack (\<lambda>m. m) (\<lambda>v. v) \<lparr>Patterns = []\<rparr> (MapStr [(''output'', ''console'')]) =
     (\<lparr>Patterns = []\<rparr>, Some ''wrong type, map is expected'')"
  by (simp add: Unpack_def)

subsection \<open>The callback watcher\<close>

text \<open>
  C10. \<open>OnNewLicense\<close> leaves the state as it is when \<open>New\<close> is unset and
  otherwise returns the state that one call of the callback on the given license leaves;
  \<open>OnManagerStopped\<close> does the same with \<open>Stopped\<close>. Neither calls an unset
  callback: the panic of a call through \<^verbatim>\<open>nil\<close> is never the result.
\<close>

theorem callbacks_guarded:
  "(New cb = None \<longrightarrow> OnNewLicense cb license s = Inr s) \<and>
   (\<forall>f. New cb = Some f \<longrightarrow> OnNewLicense cb license s = Inr (f license s)) \<and>
   (Stopped cb = None \<longrightarrow> OnManagerStopped cb s = Inr s) \<and>
   (\<forall>g. Stopped cb = Some g \<longrightarrow> OnManagerStopped cb s = Inr (g s)) \<and>
   OnNewLicense cb license s \<noteq> Inl NilFunctionCall \<and>
   OnManagerStopped cb s \<noteq> Inl NilFunctionCall"
  by (cases "New cb"; cases "Stopped cb") (simp_all add: OnNewLicense_def OnManagerStopped_def)

theorem callbacks_guarded_witness:
  "OnNewLicense \<lparr>New = Some (\<lambda>l log. log @ [l]), Stopped = Some (\<lambda>log. log @ [0])\<rparr>
     (7::nat) [] = Inr [7] \<and>
   OnManagerStopped \<lparr>New = Some (\<lambda>l log. log @ [l]), Stopped = Some (\<lambda>log. log @ [0])\<rparr>
     ([]::nat list) = Inr [0] \<and>
   OnNewLicense \<lparr>New = None, Stopped = None\<rparr> (7::nat) ([]::nat list) = Inr [] \<and>
   OnManagerStopped
     \<lparr>New = None :: (nat \<Rightarrow> nat list \<Rightarrow> nat list) option, Stopped = None\<rparr> [] = Inr []"
  using
    callbacks_guarded
      [of "\<lparr>New = Some (\<lambda>l log. log @ [l]), Stopped = Some (\<lambda>log. log @ [0])\<rparr>"
        "7::nat" "[]::nat list"]
    callbacks_guarded [of "\<lparr>New = None, Stopped = None\<rparr>" "7::nat" "[]::nat list"]
  by simp

end
